theory Spec2Isabelle
  imports Main "HOL-Library.Word"
begin

unbundle bit_operations_syntax

section \<open>Data model of simple-malloc.c\<close>

text \<open>
  The embedding fixes the LP64 data model the program is written for (it obtains
  memory with \<^verbatim>\<open>sbrk\<close>): \<^verbatim>\<open>size_t\<close> and pointers are 64-bit words, and
  \<^verbatim>\<open>struct header\<close> occupies 32 bytes (8 for \<^verbatim>\<open>size\<close>, 1 for \<^verbatim>\<open>free\<close> plus 7 of
  padding, 8 for each link). \<^verbatim>\<open>NULL\<close> is the address 0.

  Memory is a store of headers indexed by address. Every read and write of the source
  goes through this store in the order the source performs it, so aliasing between the
  pointers of one function is accounted for. Headers kept at different addresses are
  separate objects of the store: two headers whose 32 bytes would overlap are outside
  the model, and no test state below has such a pair. A read or write through
  \<^verbatim>\<open>NULL\<close> is an access to the store at address 0 and is not trapped, and the store
  has no unmapped addresses. Memory that was never written holds arbitrary contents: the
  store is a parameter of every general theorem. A general theorem about the state
  after a split or a growth therefore assumes that the headers written lie in the heap
  and do not partly overlap (\<open>in_heap\<close>, \<open>overlap\<close> and \<open>split_in_heap\<close> below).
\<close>

type_synonym addr = "64 word"
type_synonym size_t = "64 word"

record header =
  size_hdr :: size_t
  free :: bool
  "next" :: addr
  prev :: addr

text \<open>
  The globals \<^verbatim>\<open>head\<close> and \<^verbatim>\<open>tail\<close>, the memory, and the state of the operating
  system's program break (its current value and the highest value it may reach).
\<close>

record alloc_state =
  head :: addr
  tail :: addr
  mem :: "addr \<Rightarrow> header"
  brk :: addr
  brk_max :: addr

definition HEADER_SIZE :: size_t where
  "HEADER_SIZE = 32"

definition ALIGNMENT :: size_t where
  "ALIGNMENT = 8"

definition ALIGN :: "size_t \<Rightarrow> size_t" where
  "ALIGN sz = (sz + (ALIGNMENT - 1)) AND NOT (ALIGNMENT - 1)"

section \<open>Operations\<close>

definition init_header :: "alloc_state \<Rightarrow> addr \<Rightarrow> size_t \<Rightarrow> bool \<Rightarrow> alloc_state" where
  "init_header s hdr sz fr =
     s\<lparr>mem := (mem s)(hdr := \<lparr>size_hdr = sz, free = fr, next = 0, prev = 0\<rparr>)\<rparr>"

text \<open>
  Modelled from the spec: \<^verbatim>\<open>sbrk\<close>, the operating system's call that the source uses
  and does not define. It extends the region by the given number of bytes and returns the
  address where the extension starts, each extension starting where the previous one
  ended; when the extension cannot be granted it returns the failure value
  \<^verbatim>\<open>(void*)-1\<close> and alters nothing. The byte count is taken as unsigned, and an
  extension is granted exactly when the new break stays within \<open>brk_max\<close>.
\<close>

definition sbrk :: "alloc_state \<Rightarrow> size_t \<Rightarrow> addr \<times> alloc_state" where
  "sbrk s n =
     (if unat (brk s) + unat n \<le> unat (brk_max s)
      then (brk s, s\<lparr>brk := brk s + n\<rparr>)
      else (- 1, s))"

definition get_raw_heap_mem :: "alloc_state \<Rightarrow> size_t \<Rightarrow> addr \<times> alloc_state" where
  "get_raw_heap_mem s sz =
     (let (request, s1) = sbrk s sz
      in if request = - 1 then (0, s1) else (request, s1))"

definition get_heap_mem :: "alloc_state \<Rightarrow> size_t \<Rightarrow> addr \<times> alloc_state" where
  "get_heap_mem s sz =
     (let (block, s1) = get_raw_heap_mem s (HEADER_SIZE + sz)
      in if block = 0 then (0, s1)
         else (block, init_header s1 block sz False))"

definition can_split_block :: "alloc_state \<Rightarrow> addr \<Rightarrow> size_t \<Rightarrow> bool" where
  "can_split_block s block req_size \<longleftrightarrow>
     size_hdr (mem s block) + HEADER_SIZE > req_size"

text \<open>
  In \<^verbatim>\<open>split_block\<close> the address of the right-hand block is
  \<^verbatim>\<open>(struct header*)(char*)(lhs_block+1) + size\<close>: the casts bind tighter than the
  addition, so \<^verbatim>\<open>size\<close> is added to a \<^verbatim>\<open>struct header*\<close> and counts headers, not
  bytes.
\<close>

definition split_block :: "alloc_state \<Rightarrow> addr \<Rightarrow> size_t \<Rightarrow> addr \<times> alloc_state" where
  "split_block s lhs_block sz =
     (let rhs_block = (lhs_block + HEADER_SIZE) + sz * HEADER_SIZE;
          s1 = init_header s rhs_block
                 (size_hdr (mem s lhs_block) - sz - HEADER_SIZE) True;
          s2 = s1\<lparr>mem := (mem s1)(lhs_block := (mem s1 lhs_block)\<lparr>size_hdr := sz\<rparr>)\<rparr>;
          s3 = s2\<lparr>mem := (mem s2)(lhs_block := (mem s2 lhs_block)\<lparr>free := False\<rparr>)\<rparr>;
          s4 = s3\<lparr>mem := (mem s3)(rhs_block := (mem s3 rhs_block)\<lparr>prev := lhs_block\<rparr>)\<rparr>;
          s5 = s4\<lparr>mem := (mem s4)(rhs_block :=
                 (mem s4 rhs_block)\<lparr>next := next (mem s4 lhs_block)\<rparr>)\<rparr>;
          s6 = (let nx = next (mem s5 lhs_block)
                in if nx \<noteq> 0
                   then s5\<lparr>mem := (mem s5)(nx := (mem s5 nx)\<lparr>prev := rhs_block\<rparr>)\<rparr>
                   else s5);
          s7 = s6\<lparr>mem := (mem s6)(lhs_block := (mem s6 lhs_block)\<lparr>next := rhs_block\<rparr>)\<rparr>;
          s8 = (if lhs_block = tail s7 then s7\<lparr>tail := rhs_block\<rparr> else s7)
      in (lhs_block, s8))"

text \<open>
  The \<^verbatim>\<open>while\<close> loop of \<^verbatim>\<open>search_free_list\<close>. It follows \<^verbatim>\<open>next\<close> links until it
  meets \<^verbatim>\<open>NULL\<close> or a fitting block; on a cyclic chain without a fitting block it does
  not return, which is the value \<open>None\<close>.
\<close>

partial_function (option) search_free_list_loop ::
  "(addr \<Rightarrow> header) \<Rightarrow> addr \<Rightarrow> size_t \<Rightarrow> addr option" where
  "search_free_list_loop m curr_blk sz =
     (if curr_blk \<noteq> 0 \<and> \<not> (size_hdr (m curr_blk) \<ge> sz \<and> free (m curr_blk))
      then search_free_list_loop m (next (m curr_blk)) sz
      else Some curr_blk)"

definition search_free_list :: "alloc_state \<Rightarrow> size_t \<Rightarrow> (addr \<times> alloc_state) option" where
  "search_free_list s sz =
     (case search_free_list_loop (mem s) (head s) sz of
        None \<Rightarrow> None
      | Some curr_blk \<Rightarrow>
          if curr_blk = 0 then Some (0, s)
          else if can_split_block s curr_blk sz then Some (split_block s curr_blk sz)
          else Some (curr_blk, s))"

definition expand_free_list :: "alloc_state \<Rightarrow> size_t \<Rightarrow> addr \<times> alloc_state" where
  "expand_free_list s sz =
     (let (block, s1) = get_heap_mem s sz
      in if block = 0 then (0, s1)
         else
           (let s2 = s1\<lparr>mem := (mem s1)(block := (mem s1 block)\<lparr>prev := tail s1\<rparr>)\<rparr>;
                s3 = s2\<lparr>mem := (mem s2)(tail s2 := (mem s2 (tail s2))\<lparr>next := block\<rparr>)\<rparr>;
                s4 = s3\<lparr>tail := block\<rparr>
            in (block, s4)))"

definition init_heap :: "alloc_state \<Rightarrow> size_t \<Rightarrow> addr \<times> alloc_state" where
  "init_heap s sz =
     (let (blk_one, s1) = get_heap_mem s sz
      in if blk_one = 0 then (0, s1)
         else (blk_one, s1\<lparr>head := blk_one, tail := blk_one\<rparr>))"

text \<open>
  \<^verbatim>\<open>xmalloc\<close> returns \<^verbatim>\<open>block + 1\<close>, the address 32 bytes past the header. On the
  empty chain the result of \<^verbatim>\<open>init_heap\<close> is not compared with \<^verbatim>\<open>NULL\<close> before the
  addition.
\<close>

definition xmalloc :: "alloc_state \<Rightarrow> size_t \<Rightarrow> (addr \<times> alloc_state) option" where
  "xmalloc s n =
     (let sz = ALIGN n
      in if head s = 0
         then (let (block, s1) = init_heap s sz in Some (block + HEADER_SIZE, s1))
         else
           (case search_free_list s sz of
              None \<Rightarrow> None
            | Some (block, s1) \<Rightarrow>
                if block = 0
                then (let (block2, s2) = expand_free_list s1 sz
                      in if block2 = 0 then Some (0, s2)
                         else Some (block2 + HEADER_SIZE, s2))
                else Some (block + HEADER_SIZE, s1)))"

definition merge_adjacent_free_blocks :: "alloc_state \<Rightarrow> addr \<Rightarrow> addr \<Rightarrow> alloc_state" where
  "merge_adjacent_free_blocks s a b =
     (let s1 = s\<lparr>mem := (mem s)(a := (mem s a)\<lparr>size_hdr :=
                 size_hdr (mem s a) + (size_hdr (mem s b) + HEADER_SIZE)\<rparr>)\<rparr>;
          s2 = s1\<lparr>mem := (mem s1)(a := (mem s1 a)\<lparr>next := next (mem s1 b)\<rparr>)\<rparr>;
          s3 = (let bn = next (mem s2 b)
                in if bn \<noteq> 0
                   then s2\<lparr>mem := (mem s2)(bn := (mem s2 bn)\<lparr>prev := a\<rparr>)\<rparr>
                   else s2)
      in if tail s3 = b then s3\<lparr>tail := a\<rparr> else s3)"

definition xfree :: "alloc_state \<Rightarrow> addr \<Rightarrow> alloc_state" where
  "xfree s ptr =
     (if ptr = 0 then s
      else
        (let block = ptr - HEADER_SIZE;
             s1 = s\<lparr>mem := (mem s)(block := (mem s block)\<lparr>free := True\<rparr>)\<rparr>
         in if next (mem s1 block) \<noteq> 0 \<and> free (mem s1 (next (mem s1 block)))
            then merge_adjacent_free_blocks s1 block (next (mem s1 block))
            else if prev (mem s1 block) \<noteq> 0 \<and> free (mem s1 (prev (mem s1 block)))
            then merge_adjacent_free_blocks s1 (prev (mem s1 block)) block
            else s1))"

text \<open>
  The loop of \<^verbatim>\<open>free_list_len\<close>; the counter is kept as a natural number. On a cyclic
  chain the loop does not return.
\<close>

partial_function (option) free_list_len_loop ::
  "(addr \<Rightarrow> header) \<Rightarrow> addr \<Rightarrow> nat \<Rightarrow> nat option" where
  "free_list_len_loop m tmp len =
     (if tmp \<noteq> 0 then free_list_len_loop m (next (m tmp)) (len + 1) else Some len)"

definition free_list_len :: "alloc_state \<Rightarrow> nat option" where
  "free_list_len s = free_list_len_loop (mem s) (head s) 0"


section \<open>Chains and test states\<close>

text \<open>
  \<open>chain m p ps\<close>: following \<^verbatim>\<open>next\<close> from \<open>p\<close> in memory \<open>m\<close> visits exactly the
  addresses \<open>ps\<close>, in this order, and then reaches \<^verbatim>\<open>NULL\<close>.
\<close>

fun chain :: "(addr \<Rightarrow> header) \<Rightarrow> addr \<Rightarrow> addr list \<Rightarrow> bool" where
  "chain m p [] \<longleftrightarrow> p = 0"
| "chain m p (q # qs) \<longleftrightarrow> p = q \<and> p \<noteq> 0 \<and> chain m (next (m p)) qs"

text \<open>The test of the search loop: the block at \<open>q\<close> is free and holds \<open>sz\<close> bytes.\<close>

definition fits :: "(addr \<Rightarrow> header) \<Rightarrow> size_t \<Rightarrow> addr \<Rightarrow> bool" where
  "fits m sz q \<longleftrightarrow> size_hdr (m q) \<ge> sz \<and> free (m q)"

text \<open>
  A process that has not allocated yet: both globals are \<^verbatim>\<open>NULL\<close>, the break is at
  \<^verbatim>\<open>0x1000\<close> and may grow up to \<^verbatim>\<open>0x2000\<close>. \<open>nomem\<close> is the same process with no
  room left above the break.
\<close>

definition mem0 :: "addr \<Rightarrow> header" where
  "mem0 = (\<lambda>_. \<lparr>size_hdr = 0, free = False, next = 0, prev = 0\<rparr>)"

definition fresh :: alloc_state where
  "fresh = \<lparr>head = 0, tail = 0, mem = mem0, brk = 0x1000, brk_max = 0x2000\<rparr>"

definition nomem :: alloc_state where
  "nomem = \<lparr>head = 0, tail = 0, mem = mem0, brk = 0x1000, brk_max = 0x1000\<rparr>"

text \<open>
  The states of the run \<^verbatim>\<open>a = xmalloc(8); b = xmalloc(512); xfree(a); xmalloc(8)\<close>
  from \<open>fresh\<close>: \<open>st1\<close> after the first call, \<open>st2\<close> after the second, \<open>st3\<close> after
  the release and \<open>st4\<close> after the last allocation.
\<close>

definition st1 :: alloc_state where
  "st1 = \<lparr>head = 0x1000, tail = 0x1000,
          mem = mem0(0x1000 := \<lparr>size_hdr = 8, free = False, next = 0, prev = 0\<rparr>),
          brk = 0x1028, brk_max = 0x2000\<rparr>"

definition st2 :: alloc_state where
  "st2 = \<lparr>head = 0x1000, tail = 0x1028,
          mem = mem0(0x1000 := \<lparr>size_hdr = 8, free = False, next = 0x1028, prev = 0\<rparr>,
                     0x1028 := \<lparr>size_hdr = 512, free = False, next = 0, prev = 0x1000\<rparr>),
          brk = 0x1248, brk_max = 0x2000\<rparr>"

definition st3 :: alloc_state where
  "st3 = \<lparr>head = 0x1000, tail = 0x1028,
          mem = mem0(0x1000 := \<lparr>size_hdr = 8, free = True, next = 0x1028, prev = 0\<rparr>,
                     0x1028 := \<lparr>size_hdr = 512, free = False, next = 0, prev = 0x1000\<rparr>),
          brk = 0x1248, brk_max = 0x2000\<rparr>"

definition st4 :: alloc_state where
  "st4 = \<lparr>head = 0x1000, tail = 0x1028,
          mem = mem0(0x1000 := \<lparr>size_hdr = 8, free = False, next = 0x1120, prev = 0\<rparr>,
                     0x1028 := \<lparr>size_hdr = 512, free = False, next = 0, prev = 0x1120\<rparr>,
                     0x1120 := \<lparr>size_hdr = 0xFFFFFFFFFFFFFFE0, free = True,
                                 next = 0x1028, prev = 0x1000\<rparr>),
          brk = 0x1248, brk_max = 0x2000\<rparr>"

text \<open>
  The states of the run \<^verbatim>\<open>a = xmalloc(8); b = xmalloc(8); c = xmalloc(8); xfree(a);
  xfree(c); xfree(b)\<close> from \<open>fresh\<close> (its first call leads to \<open>st1\<close>): \<open>u2\<close> and
  \<open>u3\<close> after the second and third allocation, \<open>u5\<close> after the first two releases,
  \<open>u6\<close> at the end.
\<close>

definition u2 :: alloc_state where
  "u2 = \<lparr>head = 0x1000, tail = 0x1028,
         mem = mem0(0x1000 := \<lparr>size_hdr = 8, free = False, next = 0x1028, prev = 0\<rparr>,
                    0x1028 := \<lparr>size_hdr = 8, free = False, next = 0, prev = 0x1000\<rparr>),
         brk = 0x1050, brk_max = 0x2000\<rparr>"

definition u3 :: alloc_state where
  "u3 = \<lparr>head = 0x1000, tail = 0x1050,
         mem = mem0(0x1000 := \<lparr>size_hdr = 8, free = False, next = 0x1028, prev = 0\<rparr>,
                    0x1028 := \<lparr>size_hdr = 8, free = False, next = 0x1050, prev = 0x1000\<rparr>,
                    0x1050 := \<lparr>size_hdr = 8, free = False, next = 0, prev = 0x1028\<rparr>),
         brk = 0x1078, brk_max = 0x2000\<rparr>"

definition u5 :: alloc_state where
  "u5 = \<lparr>head = 0x1000, tail = 0x1050,
         mem = mem0(0x1000 := \<lparr>size_hdr = 8, free = True, next = 0x1028, prev = 0\<rparr>,
                    0x1028 := \<lparr>size_hdr = 8, free = False, next = 0x1050, prev = 0x1000\<rparr>,
                    0x1050 := \<lparr>size_hdr = 8, free = True, next = 0, prev = 0x1028\<rparr>),
         brk = 0x1078, brk_max = 0x2000\<rparr>"

definition u6 :: alloc_state where
  "u6 = \<lparr>head = 0x1000, tail = 0x1028,
         mem = mem0(0x1000 := \<lparr>size_hdr = 8, free = True, next = 0x1028, prev = 0\<rparr>,
                    0x1028 := \<lparr>size_hdr = 48, free = True, next = 0, prev = 0x1000\<rparr>,
                    0x1050 := \<lparr>size_hdr = 8, free = True, next = 0, prev = 0x1028\<rparr>),
         brk = 0x1078, brk_max = 0x2000\<rparr>"

text \<open>
  The states of the run \<^verbatim>\<open>a = xmalloc(136); b = xmalloc(1024); xfree(a); xmalloc(10)\<close>
  from \<open>fresh\<close>, one after each call. The block released is large enough to hold the
  16 bytes asked for, a second header and 88 further bytes.
\<close>

definition w1 :: alloc_state where
  "w1 = \<lparr>head = 0x1000, tail = 0x1000,
         mem = mem0(0x1000 := \<lparr>size_hdr = 136, free = False, next = 0, prev = 0\<rparr>),
         brk = 0x10A8, brk_max = 0x2000\<rparr>"

definition w2 :: alloc_state where
  "w2 = \<lparr>head = 0x1000, tail = 0x10A8,
         mem = mem0(0x1000 := \<lparr>size_hdr = 136, free = False, next = 0x10A8, prev = 0\<rparr>,
                    0x10A8 := \<lparr>size_hdr = 1024, free = False, next = 0, prev = 0x1000\<rparr>),
         brk = 0x14C8, brk_max = 0x2000\<rparr>"

definition w3 :: alloc_state where
  "w3 = \<lparr>head = 0x1000, tail = 0x10A8,
         mem = mem0(0x1000 := \<lparr>size_hdr = 136, free = True, next = 0x10A8, prev = 0\<rparr>,
                    0x10A8 := \<lparr>size_hdr = 1024, free = False, next = 0, prev = 0x1000\<rparr>),
         brk = 0x14C8, brk_max = 0x2000\<rparr>"

definition w4 :: alloc_state where
  "w4 = \<lparr>head = 0x1000, tail = 0x10A8,
         mem = mem0(0x1000 := \<lparr>size_hdr = 16, free = False, next = 0x1220, prev = 0\<rparr>,
                    0x10A8 := \<lparr>size_hdr = 1024, free = False, next = 0, prev = 0x1220\<rparr>,
                    0x1220 := \<lparr>size_hdr = 88, free = True, next = 0x10A8, prev = 0x1000\<rparr>),
         brk = 0x14C8, brk_max = 0x2000\<rparr>"

text \<open>
  Where the header store and the program's memory agree. The store keeps one header per
  address; the program's memory is bytes. The two agree as long as every header the
  program touches lies in memory it may use and no two headers it writes share only a
  part of their 32 bytes. The predicates below say so, and the general theorems on the
  result of a split or of a growth assume them.

  \<open>overlap x y\<close>: headers at the different addresses \<open>x\<close> and \<open>y\<close> share some but not
  all of their bytes.
\<close>

definition overlap :: "addr \<Rightarrow> addr \<Rightarrow> bool" where
  "overlap x y \<longleftrightarrow> x \<noteq> y \<and> (x - y < HEADER_SIZE \<or> y - x < HEADER_SIZE)"

text \<open>
  \<open>in_heap s x\<close>: the 32 bytes of a header at \<open>x\<close> lie in the memory obtained from
  \<^verbatim>\<open>sbrk\<close> so far, which starts at the first block, \<^verbatim>\<open>head\<close>, and ends at the break.
\<close>

definition in_heap :: "alloc_state \<Rightarrow> addr \<Rightarrow> bool" where
  "in_heap s x \<longleftrightarrow>
     head s \<noteq> 0 \<and> unat (head s) \<le> unat x \<and> unat x + unat HEADER_SIZE \<le> unat (brk s)"

text \<open>
  \<open>split_in_heap s lhs_block sz\<close>: the headers that \<^verbatim>\<open>split_block(lhs_block, sz)\<close>
  reads and writes lie in the heap (the block, the new right-hand header, and the old
  next neighbour when there is one), and the neighbour's header does not partly overlap
  either of the other two. The block and the new header never partly overlap: their
  distance is a multiple of 32.
\<close>

definition split_in_heap :: "alloc_state \<Rightarrow> addr \<Rightarrow> size_t \<Rightarrow> bool" where
  "split_in_heap s lhs_block sz \<longleftrightarrow>
     in_heap s lhs_block \<and>
     in_heap s (lhs_block + HEADER_SIZE + sz * HEADER_SIZE) \<and>
     (next (mem s lhs_block) = 0 \<or>
      in_heap s (next (mem s lhs_block)) \<and>
      \<not> overlap (next (mem s lhs_block)) lhs_block \<and>
      \<not> overlap (next (mem s lhs_block)) (lhs_block + HEADER_SIZE + sz * HEADER_SIZE))"


text \<open>
  The states of the run \<^verbatim>\<open>a = xmalloc(256); b = xmalloc(8); xfree(a); xmalloc(8)\<close> from
  \<open>fresh\<close>, one after each call. The split of the last call puts the new header at
  \<open>0x1000 + 32 + 8 * 32 = 0x1120\<close>, exactly on the header of \<open>b\<close>, and links it to itself.
\<close>

definition c1 :: alloc_state where
  "c1 = \<lparr>head = 0x1000, tail = 0x1000,
         mem = mem0(0x1000 := \<lparr>size_hdr = 256, free = False, next = 0, prev = 0\<rparr>),
         brk = 0x1120, brk_max = 0x2000\<rparr>"

definition c2 :: alloc_state where
  "c2 = \<lparr>head = 0x1000, tail = 0x1120,
         mem = mem0(0x1000 := \<lparr>size_hdr = 256, free = False, next = 0x1120, prev = 0\<rparr>,
                    0x1120 := \<lparr>size_hdr = 8, free = False, next = 0, prev = 0x1000\<rparr>),
         brk = 0x1148, brk_max = 0x2000\<rparr>"

definition c3 :: alloc_state where
  "c3 = \<lparr>head = 0x1000, tail = 0x1120,
         mem = mem0(0x1000 := \<lparr>size_hdr = 256, free = True, next = 0x1120, prev = 0\<rparr>,
                    0x1120 := \<lparr>size_hdr = 8, free = False, next = 0, prev = 0x1000\<rparr>),
         brk = 0x1148, brk_max = 0x2000\<rparr>"

definition c4 :: alloc_state where
  "c4 = \<lparr>head = 0x1000, tail = 0x1120,
         mem = mem0(0x1000 := \<lparr>size_hdr = 8, free = False, next = 0x1120, prev = 0\<rparr>,
                    0x1120 := \<lparr>size_hdr = 216, free = True, next = 0x1120, prev = 0x1120\<rparr>),
         brk = 0x1148, brk_max = 0x2000\<rparr>"

text \<open>
  The states of the run \<^verbatim>\<open>a = xmalloc(256); xfree(a); xmalloc(8); p = xmalloc(300);
  xfree(p)\<close> from \<open>fresh\<close> (its first call leads to \<open>c1\<close>), one after each further call.
  The split puts the new header at the break, \<open>0x1120\<close>, and the growth that follows
  places the block of \<open>p\<close> at the same address, where it becomes its own neighbour.
\<close>

definition d2 :: alloc_state where
  "d2 = \<lparr>head = 0x1000, tail = 0x1000,
         mem = mem0(0x1000 := \<lparr>size_hdr = 256, free = True, next = 0, prev = 0\<rparr>),
         brk = 0x1120, brk_max = 0x2000\<rparr>"






text \<open>\<open>st1\<close> with the break already at its limit.\<close>

definition st1_full :: alloc_state where
  "st1_full = st1\<lparr>brk_max := 0x1028\<rparr>"

section \<open>Arithmetic of sizes and addresses\<close>



lemma even_ALIGN: "even (ALIGN n)"
  by (simp add: ALIGN_def ALIGNMENT_def even_and_iff)

lemma odd_times_32: "even (a::64 word) \<Longrightarrow> (a + 1) * 32 \<noteq> 0"
proof
  assume ev: "even a" and eq: "(a + 1) * 32 = 0"
  have "bit (push_bit 5 (a + 1)) 5"
    using ev by (simp add: bit_push_bit_iff bit_0)
  then show False using eq by (simp add: push_bit_eq_mult)
qed






lemma rhs_neq_lhs: "(q + HEADER_SIZE) + ALIGN n * HEADER_SIZE \<noteq> q"
proof -
  have "(ALIGN n + 1) * 32 \<noteq> 0" by (rule odd_times_32 [OF even_ALIGN])
  moreover have "(q + HEADER_SIZE) + ALIGN n * HEADER_SIZE = q + (ALIGN n + 1) * 32"
    by (simp add: HEADER_SIZE_def algebra_simps)
  ultimately show ?thesis by simp
qed

section \<open>The test run\<close>

lemmas alloc_defs = xmalloc_def init_heap_def get_heap_mem_def get_raw_heap_mem_def sbrk_def
  init_header_def ALIGN_def ALIGNMENT_def HEADER_SIZE_def expand_free_list_def
  search_free_list_def can_split_block_def split_block_def Let_def

lemmas free_defs = xfree_def merge_adjacent_free_blocks_def HEADER_SIZE_def Let_def

lemma fresh_step1: "xmalloc fresh 8 = Some (0x1020, st1)"
  by (simp add: alloc_defs fresh_def st1_def)

lemma st1_loop: "search_free_list_loop (mem st1) (head st1) 512 = Some 0"
  by (simp add: search_free_list_loop.simps st1_def mem0_def)

lemma st1_step2: "xmalloc st1 512 = Some (0x1048, st2)"
  using st1_loop by (simp add: alloc_defs st1_def st2_def fun_eq_iff)

lemma st2_step3: "xfree st2 0x1020 = st3"
  by (simp add: free_defs st2_def st3_def mem0_def fun_eq_iff)

lemma st3_loop: "search_free_list_loop (mem st3) (head st3) 8 = Some 0x1000"
  by (simp add: search_free_list_loop.simps st3_def mem0_def)

lemma st3_step4: "xmalloc st3 8 = Some (0x1020, st4)"
  using st3_loop by (simp add: alloc_defs st3_def st4_def fun_eq_iff)

lemma st4_loop: "search_free_list_loop (mem st4) (head st4) 8 = Some 0x1120"
  by (simp add: search_free_list_loop.simps st4_def mem0_def)


lemma st4_chain: "chain (mem st4) (head st4) [0x1000, 0x1120, 0x1028]"
  by (simp add: st4_def)

lemma st3_len: "free_list_len st3 = Some 2"
  by (simp add: free_list_len_def free_list_len_loop.simps st3_def mem0_def)

lemma st4_len: "free_list_len st4 = Some 3"
  by (simp add: free_list_len_def free_list_len_loop.simps st4_def mem0_def)

lemma st1_loop8: "search_free_list_loop (mem st1) (head st1) 8 = Some 0"
  by (simp add: search_free_list_loop.simps st1_def mem0_def)

lemma st1_u2: "xmalloc st1 8 = Some (0x1048, u2)"
  using st1_loop8 by (simp add: alloc_defs st1_def u2_def fun_eq_iff)

lemma u2_loop8: "search_free_list_loop (mem u2) (head u2) 8 = Some 0"
  by (simp add: search_free_list_loop.simps u2_def mem0_def)

lemma u2_u3: "xmalloc u2 8 = Some (0x1070, u3)"
  using u2_loop8 by (simp add: alloc_defs u2_def u3_def fun_eq_iff)

lemma u3_u5: "xfree (xfree u3 0x1020) 0x1070 = u5"
  by (simp add: free_defs u3_def u5_def mem0_def fun_eq_iff)

lemma fresh_w1: "xmalloc fresh 136 = Some (0x1020, w1)"
  by (simp add: alloc_defs fresh_def w1_def)

lemma w1_loop: "search_free_list_loop (mem w1) (head w1) 1024 = Some 0"
  by (simp add: search_free_list_loop.simps w1_def mem0_def)

lemma w1_w2: "xmalloc w1 1024 = Some (0x10C8, w2)"
  using w1_loop by (simp add: alloc_defs w1_def w2_def fun_eq_iff)

lemma w2_w3: "xfree w2 0x1020 = w3"
  by (simp add: free_defs w2_def w3_def mem0_def fun_eq_iff)

lemma w3_loop: "search_free_list_loop (mem w3) (head w3) 16 = Some 0x1000"
  by (simp add: search_free_list_loop.simps w3_def mem0_def)

lemma w3_w4: "xmalloc w3 10 = Some (0x1020, w4)"
  using w3_loop by (simp add: alloc_defs w3_def w4_def fun_eq_iff)

section \<open>The search loop\<close>

lemma search_loop_chain:
  "chain m p ps \<Longrightarrow>
   search_free_list_loop m p sz =
     Some (case List.find (fits m sz) ps of None \<Rightarrow> 0 | Some q \<Rightarrow> q)"
proof (induction ps arbitrary: p)
  case Nil
  then show ?case by (subst search_free_list_loop.simps) simp
next
  case (Cons q qs)
  then have p: "p = q" "q \<noteq> 0" and rest: "chain m (next (m q)) qs" by auto
  show ?case
  proof (cases "fits m sz q")
    case True
    have "search_free_list_loop m p sz = Some q"
      using p True by (subst search_free_list_loop.simps) (simp add: fits_def)
    then show ?thesis using True by simp
  next
    case False
    have "search_free_list_loop m p sz = search_free_list_loop m (next (m q)) sz"
      using p False by (subst search_free_list_loop.simps) (simp add: fits_def)
    then show ?thesis using False Cons.IH [OF rest] by simp
  qed
qed

lemma search_loop_fits:
  assumes "search_free_list_loop m p sz = Some q"
  shows "q \<noteq> 0 \<longrightarrow> fits m sz q"
  using assms
  by (rule search_free_list_loop.raw_induct
        [rotated, where P = "\<lambda>m curr sz y. y \<noteq> 0 \<longrightarrow> fits m sz y"])
     (auto simp: fits_def split: if_splits)


lemma loop_none_fit:
  "chain m p ps \<Longrightarrow> list_all (\<lambda>q. \<not> fits m sz q) ps \<Longrightarrow>
   search_free_list_loop m p sz = Some 0"
  by (simp add: search_loop_chain find_None_iff[THEN iffD2] list_all_iff)

lemma loop_first_fit:
  assumes c: "chain m p (xs @ q # ys)"
    and n: "list_all (\<lambda>x. \<not> fits m sz x) xs"
    and f: "fits m sz q"
  shows "search_free_list_loop m p sz = Some q"
proof -
  have "List.find (fits m sz) (xs @ q # ys) = Some q"
    using n f by (induction xs) simp_all
  then show ?thesis using search_loop_chain [OF c, of sz] by simp
qed

section \<open>Release, merge and split, field by field\<close>

lemma xfree_unfold:
  assumes "ptr \<noteq> 0" and "b = ptr - HEADER_SIZE"
    and "n = next (mem s b)" and "p = prev (mem s b)"
    and "n \<noteq> b" and "p \<noteq> b"
  shows "xfree s ptr =
          (if n \<noteq> 0 \<and> free (mem s n)
           then merge_adjacent_free_blocks (s\<lparr>mem := (mem s)(b := (mem s b)\<lparr>free := True\<rparr>)\<rparr>) b n
           else if p \<noteq> 0 \<and> free (mem s p)
           then merge_adjacent_free_blocks (s\<lparr>mem := (mem s)(b := (mem s b)\<lparr>free := True\<rparr>)\<rparr>) p b
           else s\<lparr>mem := (mem s)(b := (mem s b)\<lparr>free := True\<rparr>)\<rparr>)"
  using assms by (simp add: xfree_def Let_def)

lemma merge_head_tail:
  "head (merge_adjacent_free_blocks s a b) = head s"
  "tail (merge_adjacent_free_blocks s a b) = (if tail s = b then a else tail s)"
  "brk (merge_adjacent_free_blocks s a b) = brk s"
  "brk_max (merge_adjacent_free_blocks s a b) = brk_max s"
  by (simp_all add: merge_adjacent_free_blocks_def Let_def)

lemma merge_mem:
  assumes "a \<noteq> b"
  shows "mem (merge_adjacent_free_blocks s a b) =
     (let m2 = (mem s)(a := (mem s a)\<lparr>size_hdr := size_hdr (mem s a) + (size_hdr (mem s b) + HEADER_SIZE),
                                     next := next (mem s b)\<rparr>)
      in if next (mem s b) \<noteq> 0
         then m2(next (mem s b) := (m2 (next (mem s b)))\<lparr>prev := a\<rparr>)
         else m2)"
  using assms by (simp add: merge_adjacent_free_blocks_def Let_def)

lemma merge_absorber:
  assumes "a \<noteq> b"
  shows "size_hdr (mem (merge_adjacent_free_blocks s a b) a) =
           size_hdr (mem s a) + (size_hdr (mem s b) + HEADER_SIZE)"
    and "next (mem (merge_adjacent_free_blocks s a b) a) = next (mem s b)"
    and "free (mem (merge_adjacent_free_blocks s a b) a) = free (mem s a)"
  using assms by (simp_all add: merge_mem Let_def)

lemma merge_successor:
  assumes "a \<noteq> b" and "next (mem s b) \<noteq> 0"
  shows "prev (mem (merge_adjacent_free_blocks s a b) (next (mem s b))) = a"
  using assms by (simp add: merge_mem Let_def)

lemma merge_others:
  assumes "a \<noteq> b" and "q \<noteq> a" and "q \<noteq> next (mem s b)"
  shows "mem (merge_adjacent_free_blocks s a b) q = mem s q"
  using assms by (simp add: merge_mem Let_def)

lemma split_block_fst: "fst (split_block s lhs sz) = lhs"
  by (simp add: split_block_def Let_def)

lemma split_block_lhs_size: "size_hdr (mem (snd (split_block s lhs sz)) lhs) = sz"
  by (simp add: split_block_def Let_def init_header_def)

lemma split_block_rhs_size:
  "lhs + HEADER_SIZE + sz * HEADER_SIZE \<noteq> lhs \<Longrightarrow>
   size_hdr (mem (snd (split_block s lhs sz)) (lhs + HEADER_SIZE + sz * HEADER_SIZE)) =
     size_hdr (mem s lhs) - sz - HEADER_SIZE"
  by (simp add: split_block_def Let_def init_header_def)

lemma wrapped_remainder:
  fixes b z :: "64 word"
  assumes le: "z \<le> b" and lt: "unat b < unat z + 32"
  shows "unat (b - z - 32) = 2 ^ 64 - (unat z + 32 - unat b)"
proof -
  have d: "unat (b - z) = unat b - unat z" using le by (simp add: unat_sub)
  have zb: "unat z \<le> unat b" using le by (simp add: word_le_nat_alt)
  have lt32: "unat (b - z) < 32" using lt d zb by simp
  have "unat (b - z - 32) = unat (b - z) + 2 ^ 64 - 32"
    using lt32 unat_sub_if_size [of "b - z" 32] by (simp add: word_size)
  then show ?thesis using d zb lt by simp
qed

section \<open>Growth\<close>

lemma unat_add_small:
  "unat (b::64 word) + k \<le> unat (m::64 word) \<Longrightarrow> unat (b + of_nat k) = unat b + k"
proof -
  assume le: "unat b + k \<le> unat m"
  have m: "unat m < 2 ^ 64" using unsigned_less [of m] by simp
  then have k: "k < 2 ^ 64" using le by simp
  then have "unat (of_nat k :: 64 word) = k" by (simp add: unat_of_nat take_bit_nat_eq_self)
  then show ?thesis using le m by (simp add: unat_word_ariths)
qed

lemma xmalloc_seed:
  assumes empty: "head s = 0"
    and nz: "brk s \<noteq> 0"
    and room: "unat (brk s) + unat (HEADER_SIZE + ALIGN n) \<le> unat (brk_max s)"
    and pos: "HEADER_SIZE + ALIGN n \<noteq> 0"
  shows "xmalloc s n = Some (brk s + HEADER_SIZE,
           s\<lparr>head := brk s, tail := brk s,
             mem := (mem s)(brk s := \<lparr>size_hdr = ALIGN n, free = False, next = 0, prev = 0\<rparr>),
             brk := brk s + (HEADER_SIZE + ALIGN n)\<rparr>)"
proof -
  have "unat (brk_max s) < 2 ^ 64" using unsigned_less [of "brk_max s"] by simp
  moreover have "unat (- 1 :: 64 word) = 2 ^ 64 - 1"
    by (simp add: unsigned_minus_1_eq_mask mask_eq_exp_minus_1)
  moreover have "unat (HEADER_SIZE + ALIGN n) \<noteq> 0" using pos by (simp add: unat_eq_zero)
  ultimately have m1: "brk s \<noteq> - 1" using room by auto
  show ?thesis
    using empty nz room m1
    by (simp add: xmalloc_def init_heap_def get_heap_mem_def get_raw_heap_mem_def sbrk_def
          init_header_def Let_def)
qed

lemma xmalloc_grow:
  assumes nonempty: "head s \<noteq> 0"
    and nofit: "search_free_list_loop (mem s) (head s) (ALIGN n) = Some 0"
    and nz: "brk s \<noteq> 0"
    and room: "unat (brk s) + unat (HEADER_SIZE + ALIGN n) \<le> unat (brk_max s)"
    and pos: "HEADER_SIZE + ALIGN n \<noteq> 0"
    and tl: "tail s \<noteq> brk s"
  shows "xmalloc s n = Some (brk s + HEADER_SIZE,
           s\<lparr>tail := brk s,
             mem := (mem s)(brk s := \<lparr>size_hdr = ALIGN n, free = False, next = 0, prev = tail s\<rparr>,
                            tail s := (mem s (tail s))\<lparr>next := brk s\<rparr>),
             brk := brk s + (HEADER_SIZE + ALIGN n)\<rparr>)"
proof -
  have "unat (brk_max s) < 2 ^ 64" using unsigned_less [of "brk_max s"] by simp
  moreover have "unat (- 1 :: 64 word) = 2 ^ 64 - 1"
    by (simp add: unsigned_minus_1_eq_mask mask_eq_exp_minus_1)
  moreover have "unat (HEADER_SIZE + ALIGN n) \<noteq> 0" using pos by (simp add: unat_eq_zero)
  ultimately have m1: "brk s \<noteq> - 1" using room by auto
  have sf: "search_free_list s (ALIGN n) = Some (0, s)"
    using nofit by (simp add: search_free_list_def)
  show ?thesis
    using nonempty nz room m1 tl
    by (simp add: xmalloc_def sf expand_free_list_def get_heap_mem_def get_raw_heap_mem_def
          sbrk_def init_header_def Let_def)
qed


lemma len1: "p \<noteq> 0 \<Longrightarrow> free_list_len_loop m p k = free_list_len_loop m (next (m p)) (k + 1)"
  by (subst free_list_len_loop.simps) simp

lemma len0: "free_list_len_loop m 0 k = Some k"
  by (subst free_list_len_loop.simps) simp

lemma loop_skip:
  "p \<noteq> 0 \<Longrightarrow> \<not> free (m p) \<Longrightarrow>
   search_free_list_loop m p sz = search_free_list_loop m (next (m p)) sz"
  by (subst search_free_list_loop.simps) simp

lemma loop_null: "search_free_list_loop m 0 sz = Some 0"
  by (subst search_free_list_loop.simps) simp

lemma ALIGN_10_20_30: "ALIGN 10 = 16" "ALIGN 20 = 24" "ALIGN 30 = 32"
  by (simp_all add: ALIGN_def ALIGNMENT_def)



section \<open>Runs that reach a damaged chain\<close>

lemma fresh_c1: "xmalloc fresh 256 = Some (0x1020, c1)"
  by (simp add: alloc_defs fresh_def c1_def)

lemma c1_loop: "search_free_list_loop (mem c1) (head c1) 8 = Some 0"
  by (simp add: search_free_list_loop.simps c1_def mem0_def)

lemma c1_c2: "xmalloc c1 8 = Some (0x1140, c2)"
  using c1_loop by (simp add: alloc_defs c1_def c2_def fun_eq_iff)

lemma c2_c3: "xfree c2 0x1020 = c3"
  by (simp add: free_defs c2_def c3_def mem0_def fun_eq_iff)

lemma c3_loop: "search_free_list_loop (mem c3) (head c3) 8 = Some 0x1000"
  by (simp add: search_free_list_loop.simps c3_def mem0_def)

lemma c3_c4: "xmalloc c3 8 = Some (0x1020, c4)"
  using c3_loop by (simp add: alloc_defs c3_def c4_def fun_eq_iff)







lemma loop_self_linked:
  assumes nz: "blk \<noteq> 0" and nf: "\<not> fits m sz blk" and self: "next (m blk) = blk"
  shows "search_free_list_loop m blk sz = None"
proof (cases "search_free_list_loop m blk sz")
  case None
  then show ?thesis .
next
  case (Some y)
  have "\<not> (m = m \<and> blk = blk \<and> sz = sz)"
    using Some
  proof (rule search_free_list_loop.raw_induct
      [rotated, where P = "\<lambda>m' c' sz' y. \<not> (m' = m \<and> c' = blk \<and> sz' = sz)"])
    fix loop m' c' sz' y'
    assume ih: "\<And>m' c' sz' y. loop m' c' sz' = Some y \<Longrightarrow> \<not> (m' = m \<and> c' = blk \<and> sz' = sz)"
      and st: "(if c' \<noteq> 0 \<and> \<not> (sz' \<le> size_hdr (m' c') \<and> free (m' c'))
               then loop m' (next (m' c')) sz' else Some c') = Some y'"
    show "\<not> (m' = m \<and> c' = blk \<and> sz' = sz)"
    proof
      assume e: "m' = m \<and> c' = blk \<and> sz' = sz"
      then have "loop m blk sz = Some y'"
        using st nz nf self by (simp add: fits_def)
      from ih [OF this] show False by simp
    qed
  qed
  then show ?thesis by simp
qed

lemma c4_loop: "search_free_list_loop (mem c4) (head c4) 1000 = None"
proof -
  have m: "mem c4 0x1000 = \<lparr>size_hdr = 8, free = False, next = 0x1120, prev = 0\<rparr>"
    "mem c4 0x1120 = \<lparr>size_hdr = 216, free = True, next = 0x1120, prev = 0x1120\<rparr>"
    "head c4 = 0x1000"
    by (simp_all add: c4_def)
  have "search_free_list_loop (mem c4) 0x1120 1000 = None"
    by (rule loop_self_linked) (simp_all add: m fits_def)
  moreover have "search_free_list_loop (mem c4) 0x1000 1000 =
      search_free_list_loop (mem c4) (next (mem c4 0x1000)) 1000"
    by (rule loop_skip) (simp_all add: m)
  ultimately show ?thesis by (simp add: m)
qed

lemma split_block_lhs_next:
  "next (mem (snd (split_block s lhs sz)) lhs) = lhs + HEADER_SIZE + sz * HEADER_SIZE"
  by (simp add: split_block_def Let_def init_header_def)


lemma st3_split_in_heap: "split_in_heap st3 0x1000 8"
  by (simp add: split_in_heap_def in_heap_def overlap_def HEADER_SIZE_def st3_def)


lemma dvd32_times_32: "32 dvd unat ((a::64 word) * 32)"
  by (simp add: unat_word_ariths dvd_mod_iff)

lemma small_multiple_of_32:
  assumes "(a::64 word) * 32 < 32"
  shows "a * 32 = 0"
proof -
  have "unat (a * 32) < 32" using assms by (simp add: word_less_nat_alt)
  moreover have "32 dvd unat (a * 32)" by (rule dvd32_times_32)
  ultimately have "unat (a * 32) = 0" by (auto elim!: dvdE)
  then show ?thesis by (simp add: unat_eq_zero)
qed

lemma split_headers_never_overlap:
  "\<not> overlap (lhs + HEADER_SIZE + sz * HEADER_SIZE) lhs"
proof
  assume o: "overlap (lhs + HEADER_SIZE + sz * HEADER_SIZE) lhs"
  have d1: "lhs + HEADER_SIZE + sz * HEADER_SIZE - lhs = (1 + sz) * 32"
    by (simp add: HEADER_SIZE_def algebra_simps)
  have d2: "lhs - (lhs + HEADER_SIZE + sz * HEADER_SIZE) = (- (1 + sz)) * 32"
    by (simp add: HEADER_SIZE_def algebra_simps)
  from o have ne: "lhs + HEADER_SIZE + sz * HEADER_SIZE \<noteq> lhs"
    by (simp add: overlap_def)
  from o have "lhs + HEADER_SIZE + sz * HEADER_SIZE - lhs < 32 \<or>
      lhs - (lhs + HEADER_SIZE + sz * HEADER_SIZE) < 32"
    unfolding overlap_def HEADER_SIZE_def by blast
  then have lt: "(1 + sz) * 32 < 32 \<or> (- (1 + sz)) * 32 < 32"
    by (simp only: d1 d2)
  from lt have "(1 + sz) * 32 = 0"
  proof
    assume "(1 + sz) * 32 < 32"
    then show ?thesis by (rule small_multiple_of_32)
  next
    assume "(- (1 + sz)) * 32 < 32"
    then have "(- (1 + sz)) * 32 = 0" by (rule small_multiple_of_32)
    then show ?thesis by simp
  qed
  then have "lhs + HEADER_SIZE + sz * HEADER_SIZE = lhs"
    by (simp add: HEADER_SIZE_def algebra_simps)
  with ne show False by simp
qed

section \<open>Claims\<close>

text \<open>
  C1. The claim: whenever the growth step fails, \<^verbatim>\<open>xmalloc\<close> returns \<^verbatim>\<open>NULL\<close>, also on
  the very first allocation. The code at that input: in a process with an empty chain
  and no room above the break, \<^verbatim>\<open>sbrk\<close> refuses the extension and \<^verbatim>\<open>xmalloc(10)\<close>
  returns the address \<^verbatim>\<open>0x20\<close>, which is \<^verbatim>\<open>NULL + 1\<close> in units of headers, not
  \<^verbatim>\<open>NULL\<close>.
\<close>

theorem xmalloc_seed_failure_not_null:
  "fst (sbrk nomem (HEADER_SIZE + ALIGN 10)) = - 1 \<and>
   xmalloc nomem 10 = Some (0x20, nomem)"
  by (simp add: alloc_defs nomem_def)

text \<open>
  C2. The claim: a found block whose remainder cannot hold a header is returned whole,
  marked allocated, and is not split. The code at such an input: in \<open>st3\<close> the first
  fitting block has size 8 and 8 bytes are asked for, so nothing remains for a header;
  \<^verbatim>\<open>can_split_block\<close> is true all the same (it compares \<^verbatim>\<open>size + HEADER_SIZE\<close> with
  the request), the block is split, the chain grows from 2 to 3 blocks, and the new
  block records the size \<open>8 - 8 - 32\<close> wrapped around, \<open>2^64 - 32\<close>.
\<close>

theorem split_without_room_for_header:
  "xmalloc fresh 8 = Some (0x1020, st1) \<and>
   xmalloc st1 512 = Some (0x1048, st2) \<and>
   xfree st2 0x1020 = st3 \<and>
   fits (mem st3) (ALIGN 8) 0x1000 \<and>
   size_hdr (mem st3 0x1000) - ALIGN 8 < HEADER_SIZE \<and>
   can_split_block st3 0x1000 (ALIGN 8) \<and>
   xmalloc st3 8 = Some (0x1020, st4) \<and>
   free_list_len st3 = Some 2 \<and>
   free_list_len st4 = Some 3 \<and>
   size_hdr (mem st4 0x1120) = 0xFFFFFFFFFFFFFFE0"
proof -
  have a: "ALIGN 8 = 8" by (simp add: ALIGN_def ALIGNMENT_def)
  have f: "fits (mem st3) (ALIGN 8) 0x1000"
    by (simp add: a fits_def st3_def)
  have r: "size_hdr (mem st3 0x1000) - ALIGN 8 < HEADER_SIZE"
    by (simp add: a HEADER_SIZE_def st3_def)
  have c: "can_split_block st3 0x1000 (ALIGN 8)"
    by (simp add: a can_split_block_def HEADER_SIZE_def st3_def)
  have z: "size_hdr (mem st4 0x1120) = 0xFFFFFFFFFFFFFFE0"
    by (simp add: st4_def)
  show ?thesis
    by (intro conjI) (rule fresh_step1 st1_step2 st2_step3 f r c st3_step4 st3_len st4_len z)+
qed

text \<open>
  C3. The claim: the chain is always in strictly ascending address order, a split
  placing the new block right after the left block's header and its \<open>size\<close> bytes of
  payload. The code at a reachable input: in \<open>w3\<close> the chain is \<open>0x1000, 0x10A8\<close>;
  \<^verbatim>\<open>xmalloc(10)\<close> splits the first block, and the new block is put at
  \<open>0x1000 + 32 + 16 * 32 = 0x1220\<close> instead of \<open>0x1000 + 32 + 16 = 0x1030\<close>, beyond
  the old neighbour, so the chain \<open>0x1000, 0x1220, 0x10A8\<close> is no longer ascending.
\<close>

theorem split_breaks_address_order:
  "xmalloc fresh 136 = Some (0x1020, w1) \<and>
   xmalloc w1 1024 = Some (0x10C8, w2) \<and>
   xfree w2 0x1020 = w3 \<and>
   chain (mem w3) (head w3) [0x1000, 0x10A8] \<and>
   xmalloc w3 10 = Some (0x1020, w4) \<and>
   chain (mem w4) (head w4) [0x1000, 0x1220, 0x10A8] \<and>
   \<not> sorted_wrt (<) [0x1000, 0x1220, 0x10A8 :: addr] \<and>
   (0x1000 :: addr) + HEADER_SIZE + ALIGN 10 = 0x1030 \<and>
   (0x1000 :: addr) + HEADER_SIZE + ALIGN 10 * HEADER_SIZE = 0x1220"
proof -
  have c3: "chain (mem w3) (head w3) [0x1000, 0x10A8]"
    by (simp add: w3_def)
  have c4: "chain (mem w4) (head w4) [0x1000, 0x1220, 0x10A8]"
    by (simp add: w4_def)
  have ns: "\<not> sorted_wrt (<) [0x1000, 0x1220, 0x10A8 :: addr]"
    by simp
  have e1: "(0x1000 :: addr) + HEADER_SIZE + ALIGN 10 = 0x1030"
    by (simp add: ALIGN_def ALIGNMENT_def HEADER_SIZE_def)
  have e2: "(0x1000 :: addr) + HEADER_SIZE + ALIGN 10 * HEADER_SIZE = 0x1220"
    by (simp add: ALIGN_def ALIGNMENT_def HEADER_SIZE_def)
  show ?thesis
    by (intro conjI) (rule fresh_w1 w1_w2 w2_w3 c3 w3_w4 c4 ns e1 e2)+
qed

text \<open>
  C4. The claim: after every release no two neighbours of the chain are both free, also
  when both neighbours of the released block are free. The code at such an input: in
  \<open>u5\<close> the chain is \<open>0x1000, 0x1028, 0x1050\<close> with the outer two blocks free;
  releasing the middle one merges it with its right neighbour and returns, and the
  resulting chain \<open>0x1000, 0x1028\<close> consists of two free blocks.
\<close>

theorem xfree_leaves_adjacent_free_blocks:
  "xmalloc fresh 8 = Some (0x1020, st1) \<and>
   xmalloc st1 8 = Some (0x1048, u2) \<and>
   xmalloc u2 8 = Some (0x1070, u3) \<and>
   xfree (xfree u3 0x1020) 0x1070 = u5 \<and>
   chain (mem u5) (head u5) [0x1000, 0x1028, 0x1050] \<and>
   free (mem u5 0x1000) \<and> \<not> free (mem u5 0x1028) \<and> free (mem u5 0x1050) \<and>
   xfree u5 0x1048 = u6 \<and>
   chain (mem u6) (head u6) [0x1000, 0x1028] \<and>
   free (mem u6 0x1000) \<and> free (mem u6 0x1028)"
proof -
  have c5: "chain (mem u5) (head u5) [0x1000, 0x1028, 0x1050]"
    by (simp add: u5_def)
  have f5: "free (mem u5 0x1000)" "\<not> free (mem u5 0x1028)" "free (mem u5 0x1050)"
    by (simp_all add: u5_def)
  have x: "xfree u5 0x1048 = u6"
    by (simp add: free_defs u5_def u6_def mem0_def fun_eq_iff)
  have c6: "chain (mem u6) (head u6) [0x1000, 0x1028]"
    by (simp add: u6_def)
  have f6: "free (mem u6 0x1000)" "free (mem u6 0x1028)"
    by (simp_all add: u6_def)
  show ?thesis
    by (intro conjI) (rule fresh_step1 st1_u2 u2_u3 u3_u5 c5 f5 x c6 f6)+
qed

text \<open>
  C5. The claim: every block the search finds passes the split test, so every fit is
  split, and a remainder smaller than a header wraps to a huge size. At one input this
  fails: in \<open>st4\<close>, a state the program reaches, the search for 8 bytes finds the free
  block at \<open>0x1120\<close> whose size is \<open>2^64 - 32\<close>; \<^verbatim>\<open>size + HEADER_SIZE\<close> wraps to 0, the
  split test is false and the block is returned unsplit.
\<close>

theorem found_block_not_split:
  "xmalloc fresh 8 = Some (0x1020, st1) \<and>
   xmalloc st1 512 = Some (0x1048, st2) \<and>
   xfree st2 0x1020 = st3 \<and>
   xmalloc st3 8 = Some (0x1020, st4) \<and>
   search_free_list_loop (mem st4) (head st4) (ALIGN 8) = Some 0x1120 \<and>
   fits (mem st4) (ALIGN 8) 0x1120 \<and>
   \<not> can_split_block st4 0x1120 (ALIGN 8) \<and>
   search_free_list st4 (ALIGN 8) = Some (0x1120, st4)"
proof -
  have a: "ALIGN 8 = 8" by (simp add: ALIGN_def ALIGNMENT_def)
  have l: "search_free_list_loop (mem st4) (head st4) (ALIGN 8) = Some 0x1120"
    using st4_loop by (simp only: a)
  have f: "fits (mem st4) (ALIGN 8) 0x1120"
    by (simp add: a fits_def st4_def)
  have c: "\<not> can_split_block st4 0x1120 (ALIGN 8)"
    by (simp add: a can_split_block_def HEADER_SIZE_def st4_def)
  have s: "search_free_list st4 (ALIGN 8) = Some (0x1120, st4)"
    using c by (simp add: search_free_list_def l)
  show ?thesis
    by (intro conjI) (rule fresh_step1 st1_step2 st2_step3 st3_step4 l f c s)+
qed

text \<open>
  C5, as amended: for every block the search finds whose size is below
  \<open>2^64 - HEADER_SIZE\<close> (so that \<^verbatim>\<open>size + HEADER_SIZE\<close> does not wrap), the split test,
  under which \<^verbatim>\<open>search_free_list\<close> calls \<^verbatim>\<open>split_block\<close>, is true. The size that
  \<^verbatim>\<open>split_block\<close> computes for the new right-hand block is
  \<^verbatim>\<open>size - req - HEADER_SIZE\<close> in 64-bit arithmetic, and when the block is
  smaller than the request plus a header this value wraps to
  \<open>2^64 - (req + HEADER_SIZE - size)\<close>, which is at least \<open>2^64 - HEADER_SIZE\<close>. When
  the headers that the split touches lie in the heap without partly overlapping
  (\<open>split_in_heap\<close>), the split is carried out: the found block is returned with size
  \<open>req\<close>, its \<^verbatim>\<open>next\<close> is the new header, and the new header records the computed
  size.
\<close>

theorem found_block_is_split:
  assumes found: "search_free_list_loop (mem s) (head s) (ALIGN n) = Some q"
    and q0: "q \<noteq> 0"
    and nowrap: "unat (size_hdr (mem s q)) + unat HEADER_SIZE < 2 ^ 64"
  shows "fits (mem s) (ALIGN n) q \<and> can_split_block s q (ALIGN n) \<and>
         (unat (size_hdr (mem s q)) < unat (ALIGN n) + unat HEADER_SIZE \<longrightarrow>
            unat (size_hdr (mem s q) - ALIGN n - HEADER_SIZE) =
              2 ^ 64 - (unat (ALIGN n) + unat HEADER_SIZE - unat (size_hdr (mem s q))) \<and>
            2 ^ 64 - unat HEADER_SIZE \<le> unat (size_hdr (mem s q) - ALIGN n - HEADER_SIZE)) \<and>
         (split_in_heap s q (ALIGN n) \<longrightarrow>
            (\<exists>s'. search_free_list s (ALIGN n) = Some (q, s') \<and>
               size_hdr (mem s' q) = ALIGN n \<and>
               next (mem s' q) = q + HEADER_SIZE + ALIGN n * HEADER_SIZE \<and>
               size_hdr (mem s' (q + HEADER_SIZE + ALIGN n * HEADER_SIZE)) =
                 size_hdr (mem s q) - ALIGN n - HEADER_SIZE))"
proof -
  have f: "fits (mem s) (ALIGN n) q" using search_loop_fits [OF found] q0 by simp
  then have le: "ALIGN n \<le> size_hdr (mem s q)" by (simp add: fits_def)
  have u: "unat (size_hdr (mem s q) + HEADER_SIZE) = unat (size_hdr (mem s q)) + unat HEADER_SIZE"
    using nowrap by (simp add: unat_word_ariths)
  have "unat (ALIGN n) < unat (size_hdr (mem s q) + HEADER_SIZE)"
    using le u by (simp add: word_le_nat_alt HEADER_SIZE_def)
  then have c: "can_split_block s q (ALIGN n)"
    by (simp add: can_split_block_def word_less_nat_alt)
  have sf: "search_free_list s (ALIGN n) = Some (split_block s q (ALIGN n))"
    using found q0 c by (simp add: search_free_list_def)
  have rs: "size_hdr (mem (snd (split_block s q (ALIGN n))) (q + HEADER_SIZE + ALIGN n * HEADER_SIZE)) =
           size_hdr (mem s q) - ALIGN n - HEADER_SIZE"
    by (rule split_block_rhs_size [OF rhs_neq_lhs])
  have sp: "\<exists>s'. search_free_list s (ALIGN n) = Some (q, s') \<and>
               size_hdr (mem s' q) = ALIGN n \<and>
               next (mem s' q) = q + HEADER_SIZE + ALIGN n * HEADER_SIZE \<and>
               size_hdr (mem s' (q + HEADER_SIZE + ALIGN n * HEADER_SIZE)) =
                 size_hdr (mem s q) - ALIGN n - HEADER_SIZE"
  proof (intro exI conjI)
    show "search_free_list s (ALIGN n) = Some (q, snd (split_block s q (ALIGN n)))"
      using sf split_block_fst [of s q "ALIGN n"]
      by (cases "split_block s q (ALIGN n)") simp
    show "size_hdr (mem (snd (split_block s q (ALIGN n))) q) = ALIGN n"
      by (rule split_block_lhs_size)
    show "next (mem (snd (split_block s q (ALIGN n))) q) = q + HEADER_SIZE + ALIGN n * HEADER_SIZE"
      by (rule split_block_lhs_next)
    show "size_hdr (mem (snd (split_block s q (ALIGN n))) (q + HEADER_SIZE + ALIGN n * HEADER_SIZE)) =
           size_hdr (mem s q) - ALIGN n - HEADER_SIZE"
      by (rule rs)
  qed
  have w: "unat (size_hdr (mem s q)) < unat (ALIGN n) + unat HEADER_SIZE \<longrightarrow>
            unat (size_hdr (mem s q) - ALIGN n - HEADER_SIZE) =
              2 ^ 64 - (unat (ALIGN n) + unat HEADER_SIZE - unat (size_hdr (mem s q))) \<and>
            2 ^ 64 - unat HEADER_SIZE \<le> unat (size_hdr (mem s q) - ALIGN n - HEADER_SIZE)"
  proof
    assume lt: "unat (size_hdr (mem s q)) < unat (ALIGN n) + unat HEADER_SIZE"
    have zb: "unat (ALIGN n) \<le> unat (size_hdr (mem s q))" using le by (simp add: word_le_nat_alt)
    have e: "unat (size_hdr (mem s q) - ALIGN n - HEADER_SIZE) =
              2 ^ 64 - (unat (ALIGN n) + unat HEADER_SIZE - unat (size_hdr (mem s q)))"
      using wrapped_remainder [OF le] lt by (simp add: HEADER_SIZE_def)
    show "unat (size_hdr (mem s q) - ALIGN n - HEADER_SIZE) =
              2 ^ 64 - (unat (ALIGN n) + unat HEADER_SIZE - unat (size_hdr (mem s q))) \<and>
            2 ^ 64 - unat HEADER_SIZE \<le> unat (size_hdr (mem s q) - ALIGN n - HEADER_SIZE)"
      using e zb by simp
  qed
  show ?thesis using f c sp w by blast
qed

theorem found_block_is_split_witness:
  "search_free_list_loop (mem st3) (head st3) (ALIGN 8) = Some 0x1000 \<and>
   unat (size_hdr (mem st3 0x1000)) + unat HEADER_SIZE < 2 ^ 64 \<and>
   unat (size_hdr (mem st3 0x1000)) < unat (ALIGN 8) + unat HEADER_SIZE \<and>
   split_in_heap st3 0x1000 (ALIGN 8) \<and>
   can_split_block st3 0x1000 (ALIGN 8) \<and>
   unat (size_hdr (mem st3 0x1000) - ALIGN 8 - HEADER_SIZE) = 2 ^ 64 - 32 \<and>
   (\<exists>s'. search_free_list st3 (ALIGN 8) = Some (0x1000, s') \<and>
      size_hdr (mem s' 0x1000) = ALIGN 8 \<and>
      next (mem s' 0x1000) = 0x1120 \<and>
      size_hdr (mem s' 0x1120) = size_hdr (mem st3 0x1000) - ALIGN 8 - HEADER_SIZE)"
proof -
  have a: "ALIGN 8 = 8" by (simp add: ALIGN_def ALIGNMENT_def)
  have l: "search_free_list_loop (mem st3) (head st3) (ALIGN 8) = Some 0x1000"
    using st3_loop by (simp only: a)
  have q0: "(0x1000 :: addr) \<noteq> 0" by simp
  have sz: "size_hdr (mem st3 0x1000) = 8" by (simp add: st3_def)
  have nw: "unat (size_hdr (mem st3 0x1000)) + unat HEADER_SIZE < 2 ^ 64"
    by (simp add: sz HEADER_SIZE_def)
  have lt: "unat (size_hdr (mem st3 0x1000)) < unat (ALIGN 8) + unat HEADER_SIZE"
    by (simp add: sz a HEADER_SIZE_def)
  have si: "split_in_heap st3 0x1000 (ALIGN 8)"
    using st3_split_in_heap by (simp only: a)
  have r: "(0x1000 :: addr) + HEADER_SIZE + ALIGN 8 * HEADER_SIZE = 0x1120"
    by (simp add: a HEADER_SIZE_def)
  note th = found_block_is_split [OF l q0 nw]
  have c: "can_split_block st3 0x1000 (ALIGN 8)" using th by blast
  have "unat (size_hdr (mem st3 0x1000) - ALIGN 8 - HEADER_SIZE) =
      2 ^ 64 - (unat (ALIGN 8) + unat HEADER_SIZE - unat (size_hdr (mem st3 0x1000)))"
    using th lt by blast
  then have v: "unat (size_hdr (mem st3 0x1000) - ALIGN 8 - HEADER_SIZE) = 2 ^ 64 - 32"
    by (simp add: sz a HEADER_SIZE_def)
  have "\<exists>s'. search_free_list st3 (ALIGN 8) = Some (0x1000, s') \<and>
      size_hdr (mem s' 0x1000) = ALIGN 8 \<and>
      next (mem s' 0x1000) = 0x1000 + HEADER_SIZE + ALIGN 8 * HEADER_SIZE \<and>
      size_hdr (mem s' (0x1000 + HEADER_SIZE + ALIGN 8 * HEADER_SIZE)) =
        size_hdr (mem st3 0x1000) - ALIGN 8 - HEADER_SIZE"
    using th si by blast
  then have e: "\<exists>s'. search_free_list st3 (ALIGN 8) = Some (0x1000, s') \<and>
      size_hdr (mem s' 0x1000) = ALIGN 8 \<and>
      next (mem s' 0x1000) = 0x1120 \<and>
      size_hdr (mem s' 0x1120) = size_hdr (mem st3 0x1000) - ALIGN 8 - HEADER_SIZE"
    by (simp only: r)
  show ?thesis
    by (intro conjI) (rule l nw lt si c v e)+
qed

text \<open>
  C6. From an empty chain, with room for 168 bytes above a non-null break: allocating
  10, 20 and 30 bytes gives a chain of 3 blocks; releasing the first and then the second
  leaves 2 blocks, the first of size \<open>ALIGN 10 + ALIGN 20 + HEADER_SIZE\<close>; releasing
  the third leaves 1 block of size \<open>ALIGN 10 + ALIGN 20 + ALIGN 30 + 2 * HEADER_SIZE\<close>
  that is both \<^verbatim>\<open>head\<close> and \<^verbatim>\<open>tail\<close>.
\<close>

theorem merge_round_trip:
  assumes empty: "head s = 0"
    and nz: "brk s \<noteq> 0"
    and room: "unat (brk s) + 168 \<le> unat (brk_max s)"
  shows "\<exists>a1 s1 a2 s2 a3 s3.
           xmalloc s 10 = Some (a1, s1) \<and>
           xmalloc s1 20 = Some (a2, s2) \<and>
           xmalloc s2 30 = Some (a3, s3) \<and>
           free_list_len s3 = Some 3 \<and>
           (let s4 = xfree s3 a1; s5 = xfree s4 a2; s6 = xfree s5 a3
            in free_list_len s5 = Some 2 \<and>
               chain (mem s5) (head s5) [a1 - HEADER_SIZE, a3 - HEADER_SIZE] \<and>
               size_hdr (mem s5 (a1 - HEADER_SIZE)) = ALIGN 10 + ALIGN 20 + HEADER_SIZE \<and>
               free_list_len s6 = Some 1 \<and>
               size_hdr (mem s6 (a1 - HEADER_SIZE)) =
                 ALIGN 10 + ALIGN 20 + ALIGN 30 + 2 * HEADER_SIZE \<and>
               head s6 = a1 - HEADER_SIZE \<and> tail s6 = a1 - HEADER_SIZE)"
proof -
  define b where "b = brk s"
  define s1 where "s1 = s\<lparr>head := b, tail := b,
      mem := (mem s)(b := \<lparr>size_hdr = 16, free = False, next = 0, prev = 0\<rparr>),
      brk := b + 48\<rparr>"
  define s2 where "s2 = s1\<lparr>tail := b + 48,
      mem := (mem s1)(b + 48 := \<lparr>size_hdr = 24, free = False, next = 0, prev = b\<rparr>,
                      b := (mem s1 b)\<lparr>next := b + 48\<rparr>),
      brk := b + 104\<rparr>"
  define s3 where "s3 = s2\<lparr>tail := b + 104,
      mem := (mem s2)(b + 104 := \<lparr>size_hdr = 32, free = False, next = 0, prev = b + 48\<rparr>,
                      b + 48 := (mem s2 (b + 48))\<lparr>next := b + 104\<rparr>),
      brk := b + 168\<rparr>"
  have nzk: "b + of_nat k \<noteq> 0" if "0 < k" "k \<le> 168" for k
  proof
    assume z: "b + of_nat k = 0"
    have "unat (b + of_nat k) = unat b + k"
      using unat_add_small [of b k "brk_max s"] room that by (simp add: b_def)
    with z that show False by simp
  qed
  have u48: "unat (b + 48) = unat b + 48"
    using unat_add_small [of b 48 "brk_max s"] room by (simp add: b_def)
  have u104: "unat (b + 104) = unat b + 104"
    using unat_add_small [of b 104 "brk_max s"] room by (simp add: b_def)
  have b0: "b \<noteq> 0" using nz by (simp add: b_def)
  have b48: "b + 48 \<noteq> 0" using nzk [of 48] by simp
  have b104: "b + 104 \<noteq> 0" using nzk [of 104] by simp
  have b32: "b + 32 \<noteq> 0" using nzk [of 32] by simp
  have b80: "b + 80 \<noteq> 0" using nzk [of 80] by simp
  have b136: "b + 136 \<noteq> 0" using nzk [of 136] by simp
  have st1: "xmalloc s 10 = Some (b + 32, s1)"
    using xmalloc_seed [OF empty nz, of 10] room
    by (simp add: ALIGN_10_20_30 HEADER_SIZE_def s1_def b_def)
  have l1: "search_free_list_loop (mem s1) (head s1) 24 = Some 0"
    using b0 by (simp add: s1_def loop_skip loop_null)
  have st2: "xmalloc s1 20 = Some (b + 80, s2)"
    using xmalloc_grow [of s1 20] l1 b0 b48 room u48
    by (simp add: ALIGN_10_20_30 HEADER_SIZE_def s1_def s2_def b_def)
  have l2: "search_free_list_loop (mem s2) (head s2) 32 = Some 0"
    using b0 b48 by (simp add: s2_def s1_def loop_skip loop_null)
  have st3: "xmalloc s2 30 = Some (b + 136, s3)"
    using xmalloc_grow [of s2 30] l2 b0 b48 b104 room u48 u104
    by (simp add: ALIGN_10_20_30 HEADER_SIZE_def s1_def s2_def s3_def b_def)
  have len3: "free_list_len s3 = Some 3"
    using b0 b48 b104 by (simp add: free_list_len_def s3_def s2_def s1_def len1 len0)
  have m3: "mem s3 b = \<lparr>size_hdr = 16, free = False, next = b + 48, prev = 0\<rparr>"
    "mem s3 (b + 48) = \<lparr>size_hdr = 24, free = False, next = b + 104, prev = b\<rparr>"
    "mem s3 (b + 104) = \<lparr>size_hdr = 32, free = False, next = 0, prev = b + 48\<rparr>"
    "head s3 = b" "tail s3 = b + 104"
    by (simp_all add: s3_def s2_def s1_def)
  define s4 where "s4 = xfree s3 (b + 32)"
  have e4: "s4 = s3\<lparr>mem := (mem s3)(b := (mem s3 b)\<lparr>free := True\<rparr>)\<rparr>"
    unfolding s4_def
    using xfree_unfold [of "b + 32" b "b + 48" s3 0] b32 b0
    by (simp add: HEADER_SIZE_def m3)
  have m4: "mem s4 b = \<lparr>size_hdr = 16, free = True, next = b + 48, prev = 0\<rparr>"
    "mem s4 (b + 48) = \<lparr>size_hdr = 24, free = False, next = b + 104, prev = b\<rparr>"
    "mem s4 (b + 104) = \<lparr>size_hdr = 32, free = False, next = 0, prev = b + 48\<rparr>"
    "head s4 = b" "tail s4 = b + 104"
    by (simp_all add: e4 m3)
  define t4 where "t4 = s4\<lparr>mem := (mem s4)(b + 48 := (mem s4 (b + 48))\<lparr>free := True\<rparr>)\<rparr>"
  have n4: "mem t4 b = \<lparr>size_hdr = 16, free = True, next = b + 48, prev = 0\<rparr>"
    "mem t4 (b + 48) = \<lparr>size_hdr = 24, free = True, next = b + 104, prev = b\<rparr>"
    "mem t4 (b + 104) = \<lparr>size_hdr = 32, free = False, next = 0, prev = b + 48\<rparr>"
    "head t4 = b" "tail t4 = b + 104"
    by (simp_all add: t4_def m4)
  define s5 where "s5 = xfree s4 (b + 80)"
  have e5: "s5 = merge_adjacent_free_blocks t4 b (b + 48)"
    unfolding s5_def t4_def
    using xfree_unfold [of "b + 80" "b + 48" "b + 104" s4 b] b80 b0
    by (simp add: HEADER_SIZE_def m4)
  have m5: "mem s5 b = \<lparr>size_hdr = 72, free = True, next = b + 104, prev = 0\<rparr>"
    "mem s5 (b + 104) = \<lparr>size_hdr = 32, free = False, next = 0, prev = b\<rparr>"
    using b104 by (simp_all add: e5 merge_mem n4 HEADER_SIZE_def)
  have h5: "head s5 = b" "tail s5 = b + 104"
    by (simp_all add: e5 merge_head_tail n4)
  have len5: "free_list_len s5 = Some 2"
    using b0 b104 by (simp add: free_list_len_def m5 h5 len1 len0)
  have ch5: "chain (mem s5) (head s5) [b, b + 104]"
    using b0 b104 by (simp add: m5 h5)
  define t5 where "t5 = s5\<lparr>mem := (mem s5)(b + 104 := (mem s5 (b + 104))\<lparr>free := True\<rparr>)\<rparr>"
  have n5: "mem t5 b = \<lparr>size_hdr = 72, free = True, next = b + 104, prev = 0\<rparr>"
    "mem t5 (b + 104) = \<lparr>size_hdr = 32, free = True, next = 0, prev = b\<rparr>"
    "head t5 = b" "tail t5 = b + 104"
    by (simp_all add: t5_def m5 h5)
  define s6 where "s6 = xfree s5 (b + 136)"
  have e6: "s6 = merge_adjacent_free_blocks t5 b (b + 104)"
    unfolding s6_def t5_def
    using xfree_unfold [of "b + 136" "b + 104" 0 s5 b] b136 b0 b104
    by (simp add: HEADER_SIZE_def m5)
  have m6: "mem s6 b = \<lparr>size_hdr = 136, free = True, next = 0, prev = 0\<rparr>"
    by (simp add: e6 merge_mem n5 HEADER_SIZE_def)
  have h6: "head s6 = b" "tail s6 = b"
    by (simp_all add: e6 merge_head_tail n5)
  have len6: "free_list_len s6 = Some 1"
    using b0 by (simp add: free_list_len_def m6 h6 len1 len0)
  have fin: "let s4 = xfree s3 (b + 32); s5 = xfree s4 (b + 80); s6 = xfree s5 (b + 136)
            in free_list_len s5 = Some 2 \<and>
               chain (mem s5) (head s5) [b + 32 - HEADER_SIZE, b + 136 - HEADER_SIZE] \<and>
               size_hdr (mem s5 (b + 32 - HEADER_SIZE)) = ALIGN 10 + ALIGN 20 + HEADER_SIZE \<and>
               free_list_len s6 = Some 1 \<and>
               size_hdr (mem s6 (b + 32 - HEADER_SIZE)) =
                 ALIGN 10 + ALIGN 20 + ALIGN 30 + 2 * HEADER_SIZE \<and>
               head s6 = b + 32 - HEADER_SIZE \<and> tail s6 = b + 32 - HEADER_SIZE"
    unfolding Let_def s4_def [symmetric] s5_def [symmetric] s6_def [symmetric]
    using len5 ch5 len6
    by (simp add: m5 m6 h5 h6 ALIGN_10_20_30 HEADER_SIZE_def)
  show ?thesis
    using st1 st2 st3 len3 fin by blast
qed

theorem merge_round_trip_witness:
  "head fresh = 0 \<and> brk fresh \<noteq> 0 \<and> unat (brk fresh) + 168 \<le> unat (brk_max fresh) \<and>
   (\<exists>a1 s1 a2 s2 a3 s3.
           xmalloc fresh 10 = Some (a1, s1) \<and>
           xmalloc s1 20 = Some (a2, s2) \<and>
           xmalloc s2 30 = Some (a3, s3) \<and>
           free_list_len s3 = Some 3 \<and>
           (let s4 = xfree s3 a1; s5 = xfree s4 a2; s6 = xfree s5 a3
            in free_list_len s5 = Some 2 \<and>
               chain (mem s5) (head s5) [a1 - HEADER_SIZE, a3 - HEADER_SIZE] \<and>
               size_hdr (mem s5 (a1 - HEADER_SIZE)) = ALIGN 10 + ALIGN 20 + HEADER_SIZE \<and>
               free_list_len s6 = Some 1 \<and>
               size_hdr (mem s6 (a1 - HEADER_SIZE)) =
                 ALIGN 10 + ALIGN 20 + ALIGN 30 + 2 * HEADER_SIZE \<and>
               head s6 = a1 - HEADER_SIZE \<and> tail s6 = a1 - HEADER_SIZE))"
proof -
  have h: "head fresh = 0" by (simp add: fresh_def)
  have b: "brk fresh \<noteq> 0" by (simp add: fresh_def)
  have r: "unat (brk fresh) + 168 \<le> unat (brk_max fresh)" by (simp add: fresh_def)
  show ?thesis
    using merge_round_trip [OF h b r] h b r by blast
qed


text \<open>
  C8. The claim: in every chain state the search returns the first fitting block, or
  reports that there is none. The code at a state it reaches itself: in \<open>c4\<close> the chain
  runs from \<open>0x1000\<close> to \<open>0x1120\<close>, whose \<^verbatim>\<open>next\<close> is \<open>0x1120\<close> again; neither block
  holds 1000 bytes, and the search for 1000 bytes never returns, nor does
  \<^verbatim>\<open>xmalloc(1000)\<close>.
\<close>

theorem search_never_returns_on_cycle:
  "xmalloc fresh 256 = Some (0x1020, c1) \<and>
   xmalloc c1 8 = Some (0x1140, c2) \<and>
   xfree c2 0x1020 = c3 \<and>
   xmalloc c3 8 = Some (0x1020, c4) \<and>
   next (mem c4 (head c4)) = 0x1120 \<and>
   next (mem c4 0x1120) = 0x1120 \<and>
   \<not> fits (mem c4) (ALIGN 1000) (head c4) \<and>
   \<not> fits (mem c4) (ALIGN 1000) 0x1120 \<and>
   search_free_list_loop (mem c4) (head c4) (ALIGN 1000) = None \<and>
   search_free_list c4 (ALIGN 1000) = None \<and>
   xmalloc c4 1000 = None"
proof -
  have a: "ALIGN 1000 = 1000" by (simp add: ALIGN_def ALIGNMENT_def)
  have n1: "next (mem c4 (head c4)) = 0x1120" by (simp add: c4_def)
  have n2: "next (mem c4 0x1120) = 0x1120" by (simp add: c4_def)
  have f1: "\<not> fits (mem c4) (ALIGN 1000) (head c4)" by (simp add: a fits_def c4_def)
  have f2: "\<not> fits (mem c4) (ALIGN 1000) 0x1120" by (simp add: a fits_def c4_def)
  have l: "search_free_list_loop (mem c4) (head c4) (ALIGN 1000) = None"
    using c4_loop by (simp only: a)
  have s: "search_free_list c4 (ALIGN 1000) = None"
    by (simp add: search_free_list_def l)
  have h: "head c4 \<noteq> 0" by (simp add: c4_def)
  have x: "xmalloc c4 1000 = None"
    using h s by (simp add: xmalloc_def)
  show ?thesis
    by (intro conjI) (rule fresh_c1 c1_c2 c2_c3 c3_c4 n1 n2 f1 f2 l s x)+
qed

text \<open>
  C9. When the operating system refuses the extension that an allocation asks for (on
  the empty chain, or after a search that found no block), the call returns with the
  allocator state exactly as it was: \<^verbatim>\<open>head\<close>, \<^verbatim>\<open>tail\<close>, every header in memory and
  the break are unchanged.
\<close>

theorem xmalloc_growth_failure_keeps_state:
  assumes refuse: "fst (sbrk s (HEADER_SIZE + ALIGN n)) = - 1"
      and grow: "head s = 0 \<or> search_free_list_loop (mem s) (head s) (ALIGN n) = Some 0"
  shows "xmalloc s n = Some (if head s = 0 then HEADER_SIZE else 0, s)"
proof -
  have raw: "get_raw_heap_mem s (HEADER_SIZE + ALIGN n) = (0, s)"
  proof (cases "unat (brk s) + unat (HEADER_SIZE + ALIGN n) \<le> unat (brk_max s)")
    case True
    with refuse have b: "brk s = - 1" by (simp add: sbrk_def)
    have "unat (brk_max s) < 2 ^ 64" using unsigned_less [of "brk_max s"] by simp
    moreover have "unat (- 1 :: 64 word) = 2 ^ 64 - 1"
      by (simp add: unsigned_minus_1_eq_mask mask_eq_exp_minus_1)
    ultimately have "unat (HEADER_SIZE + ALIGN n) = 0" using True b by simp
    then have "HEADER_SIZE + ALIGN n = 0" by (simp add: unat_eq_zero)
    then show ?thesis using True b by (simp add: get_raw_heap_mem_def sbrk_def)
  next
    case False
    then show ?thesis by (simp add: get_raw_heap_mem_def sbrk_def)
  qed
  then have g: "get_heap_mem s (ALIGN n) = (0, s)"
    by (simp add: get_heap_mem_def)
  show ?thesis
  proof (cases "head s = 0")
    case True
    then show ?thesis by (simp add: xmalloc_def init_heap_def g)
  next
    case False
    with grow have "search_free_list s (ALIGN n) = Some (0, s)"
      by (simp add: search_free_list_def)
    then show ?thesis using False
      by (simp add: xmalloc_def expand_free_list_def g)
  qed
qed

theorem xmalloc_growth_failure_keeps_state_witness:
  "fst (sbrk st1_full (HEADER_SIZE + ALIGN 16)) = - 1 \<and>
   search_free_list_loop (mem st1_full) (head st1_full) (ALIGN 16) = Some 0 \<and>
   xmalloc st1_full 16 = Some (0, st1_full)"
proof -
  have r: "fst (sbrk st1_full (HEADER_SIZE + ALIGN 16)) = - 1"
    by (simp add: alloc_defs st1_full_def st1_def)
  have l: "search_free_list_loop (mem st1_full) (head st1_full) (ALIGN 16) = Some 0"
    by (simp add: search_free_list_loop.simps st1_full_def st1_def mem0_def
          ALIGN_def ALIGNMENT_def)
  have h: "head st1_full \<noteq> 0" by (simp add: st1_full_def st1_def)
  show ?thesis
    using xmalloc_growth_failure_keeps_state [of st1_full 16, OF r] l r h by simp
qed




end
